theory Spec2Isabelle
  imports Main
begin

section \<open>The RPC server of MessagePassingRPC/rpc\_server.py\<close>

text \<open>
  The server binds one ZeroMQ socket of type REP, waits in an event loop (class
  \<open>Reactor\<close>) for a request, splits it at spaces and makes an upcall on the registered
  implementation object (class \<open>ServerImpl\<close>), and sends one reply.

  Python exceptions are values of the type \<open>error\<close>; every operation that touches a socket
  or the implementation object takes the state of the process's surroundings (\<open>world\<close>) and
  returns it updated, together with either the exception raised or the value returned.
  What the program writes with \<open>print\<close> is not part of the model.
\<close>

subsection \<open>Exceptions and the state\<close>

datatype error =
    IndexError        \<comment> \<open>a list index out of range\<close>
  | AttributeError    \<comment> \<open>an attribute of \<open>None\<close> was read\<close>
  | TypeError         \<comment> \<open>the poller was given something that is not a socket\<close>
  | ZMQError          \<comment> \<open>the transport refused the operation\<close>
  | SystemExit nat    \<comment> \<open>the argument parser ended the process\<close>
  | Blocked           \<comment> \<open>not an exception: the call waits for a message that never comes\<close>

type_synonym sock = nat

text \<open>\<open>ServerImpl.__init__\<close> stores the port and sets the socket to \<open>None\<close>.\<close>

record ServerImpl =
  port :: string
  socket :: "sock option"

text \<open>
  A socket of type REP: the endpoints it is bound to, the requests that its peers deliver
  (the head is the next one to be received), and whether a request has been received that
  has not been answered yet. A REP socket alternates strictly between receiving and sending.
\<close>

record rep_socket =
  endpoints :: "string list"
  inbox :: "string list"
  awaiting_send :: bool

text \<open>What the process does to its surroundings, in the order in which it does it.\<close>

datatype event =
    Recv sock string                   \<comment> \<open>\<open>socket.recv_string ()\<close> returned this message\<close>
  | Get ServerImpl string              \<comment> \<open>\<open>impl.get (key)\<close> was called\<close>
  | Put ServerImpl string string       \<comment> \<open>\<open>impl.put (key, value)\<close> was called\<close>
  | Send sock string                   \<comment> \<open>\<open>socket.send_string (msg)\<close> sent this message\<close>

record world =
  socks :: "sock \<Rightarrow> rep_socket"   \<comment> \<open>the sockets of the ZeroMQ context\<close>
  nsocks :: nat                     \<comment> \<open>how many of them have been created\<close>
  bindable :: "string \<Rightarrow> bool"     \<comment> \<open>the endpoint is valid and free\<close>
  incoming :: "string \<Rightarrow> string list" \<comment> \<open>the requests that clients send to an endpoint\<close>
  trace :: "event list"

text \<open>
  The reactor: the sockets registered with its \<open>zmq.Poller\<close> and the one registered
  implementation (\<open>None\<close> until \<open>register\<close> is called). Its \<open>zmq.Context\<close> is the
  socket table of the \<open>world\<close>.
\<close>

record Reactor =
  poller :: "sock option list"
  impl :: "ServerImpl option"

type_synonym 'a io = "world \<Rightarrow> (error + 'a) \<times> world"

definition and_then :: "'a io \<Rightarrow> ('a \<Rightarrow> 'b io) \<Rightarrow> 'b io" where
  "and_then m f = (\<lambda>w. case m w of (Inl e, w') \<Rightarrow> (Inl e, w') | (Inr x, w') \<Rightarrow> f x w')"

definition lift :: "error + 'a \<Rightarrow> 'a io" where
  "lift r = (\<lambda>w. (r, w))"

definition emit :: "event \<Rightarrow> world \<Rightarrow> world" where
  "emit e w = w\<lparr>trace := trace w @ [e]\<rparr>"

subsection \<open>Python's list indexing and \<open>str.split\<close>\<close>

text \<open>\<open>xs[i]\<close> for an index that is not negative: out of range it raises.\<close>

definition index :: "'a list \<Rightarrow> nat \<Rightarrow> error + 'a" where
  "index xs i = (if i < length xs then Inr (xs ! i) else Inl IndexError)"

text \<open>
  \<open>s.split (sep)\<close> for a separator of one character: the pieces between the occurrences
  of the separator, empty pieces included, so that the result has one more element than
  \<open>s\<close> has separators.

  A message is a \<open>string\<close>, a list of 8-bit characters. A text with other characters is
  taken in its UTF-8 encoding, where the byte of the space stands for a space only, so that
  splitting the encoding gives the encodings of the tokens. A request that is not valid
  UTF-8, on which \<open>recv_string\<close> raises, is outside the model.
\<close>

fun str_split :: "char \<Rightarrow> string \<Rightarrow> string list" where
  "str_split sep [] = [[]]"
| "str_split sep (c # cs) =
     (if c = sep then [] # str_split sep cs
      else (case str_split sep cs of [] \<Rightarrow> [[c]] | t # ts \<Rightarrow> (c # t) # ts))"

subsection \<open>The transport: sockets of type REP\<close>

text \<open>
  \<open>recv_string\<close> is refused while a reply is due and waits while no request is there;
  otherwise it takes the oldest request. \<open>send_string\<close> is refused unless a reply is due.
\<close>

definition recv_string :: "sock \<Rightarrow> string io" where
  "recv_string s w =
     (let k = socks w s in
      if awaiting_send k then (Inl ZMQError, w)
      else (case inbox k of
              [] \<Rightarrow> (Inl Blocked, w)
            | m # ms \<Rightarrow>
                (Inr m, emit (Recv s m)
                   (w\<lparr>socks := (socks w)(s := k\<lparr>inbox := ms, awaiting_send := True\<rparr>)\<rparr>))))"

definition send_string :: "sock \<Rightarrow> string \<Rightarrow> unit io" where
  "send_string s m w =
     (let k = socks w s in
      if awaiting_send k
      then (Inr (), emit (Send s m) (w\<lparr>socks := (socks w)(s := k\<lparr>awaiting_send := False\<rparr>)\<rparr>))
      else (Inl ZMQError, w))"

text \<open>
  \<open>context.socket (zmq.REP)\<close> makes a new socket; \<open>socket.bind (addr)\<close> is refused when
  the endpoint is not valid or is in use, and from then on the requests that clients send
  to the endpoint arrive at the socket.
\<close>

definition context_socket :: "sock io" where
  "context_socket w =
     (Inr (nsocks w),
      w\<lparr>socks := (socks w)(nsocks w := \<lparr>endpoints = [], inbox = [], awaiting_send = False\<rparr>),
        nsocks := Suc (nsocks w)\<rparr>)"

definition socket_bind :: "sock \<Rightarrow> string \<Rightarrow> unit io" where
  "socket_bind s addr w =
     (let k = socks w s in
      if bindable w addr
      then (Inr (),
            w\<lparr>socks := (socks w)(s := k\<lparr>endpoints := endpoints k @ [addr],
                                          inbox := inbox k @ incoming w addr\<rparr>),
              bindable := (bindable w)(addr := False)\<rparr>)
      else (Inl ZMQError, w))"

subsection \<open>ServerImpl\<close>

text \<open>
  \<open>bind\<close> assigns \<open>self.socket\<close>; the object after the call is the value returned.
\<close>

definition bind :: "ServerImpl \<Rightarrow> ServerImpl io" where
  "bind self =
     and_then context_socket (\<lambda>s.
       let self' = self\<lparr>socket := Some s\<rparr>;
           bind_str = ''tcp://*:'' @ port self'
       in and_then (socket_bind s bind_str) (\<lambda>_. lift (Inr self')))"

definition get :: "ServerImpl \<Rightarrow> string \<Rightarrow> string io" where
  "get self key w = (Inr key, emit (Get self key) w)"

definition put :: "ServerImpl \<Rightarrow> string \<Rightarrow> string \<Rightarrow> string io" where
  "put self key val w = (Inr ''ACK'', emit (Put self key val) w)"

subsection \<open>Reactor\<close>

text \<open>Reading \<open>self.impl.get\<close> or \<open>self.impl.put\<close> while \<open>self.impl\<close> is \<open>None\<close> raises.\<close>

definition the_impl :: "Reactor \<Rightarrow> ServerImpl io" where
  "the_impl self = lift (case impl self of None \<Rightarrow> Inl AttributeError | Some i \<Rightarrow> Inr i)"

text \<open>
  Python evaluates the callee before the arguments, so \<open>self.impl.get\<close> is read before
  \<open>parts[1]\<close>, and \<open>parts[1]\<close> before \<open>parts[2]\<close>.
\<close>

definition handle_message :: "Reactor \<Rightarrow> sock \<Rightarrow> unit io" where
  "handle_message self s =
     and_then (recv_string s) (\<lambda>str.
       let parts = str_split CHR '' '' str in
       and_then (lift (index parts 0)) (\<lambda>verb.
         if verb = ''GET'' then
           and_then (the_impl self) (\<lambda>i.
           and_then (lift (index parts 1)) (\<lambda>key.
           and_then (get i key) (\<lambda>ret.
           send_string s ret)))
         else if verb = ''PUT'' then
           and_then (the_impl self) (\<lambda>i.
           and_then (lift (index parts 1)) (\<lambda>key.
           and_then (lift (index parts 2)) (\<lambda>val.
           and_then (put i key val) (\<lambda>_.
           send_string s ''ack''))))
         else send_string s ''Sorry, unrecognized command''))"

text \<open>
  \<open>zmq.Poller.register\<close> keeps one entry for each object it is given; it does not look at
  the object, so \<open>None\<close> (the socket of an implementation that was never bound) is accepted.
\<close>

definition poller_register :: "sock option \<Rightarrow> sock option list \<Rightarrow> sock option list" where
  "poller_register s ps = (if s \<in> set ps then ps else ps @ [s])"

text \<open>
  \<open>zmq.Poller.poll ()\<close> without a timeout: it rejects an entry that is not a socket, waits
  until a registered socket is readable, and returns the readable ones. A REP socket is
  readable when a request is there and no reply is due.
\<close>

definition readable :: "world \<Rightarrow> sock \<Rightarrow> bool" where
  "readable w s = (inbox (socks w s) \<noteq> [] \<and> \<not> awaiting_send (socks w s))"

definition poll :: "sock option list \<Rightarrow> sock list io" where
  "poll ps w =
     (if None \<in> set ps then (Inl TypeError, w)
      else (case filter (readable w) (List.map_filter id ps) of
              [] \<Rightarrow> (Inl Blocked, w)
            | r # rs \<Rightarrow> (Inr (r # rs), w)))"

definition Reactor_init :: Reactor where
  "Reactor_init = \<lparr>poller = [], impl = None\<rparr>"

definition register :: "Reactor \<Rightarrow> ServerImpl \<Rightarrow> Reactor" where
  "register self i = self\<lparr>impl := Some i, poller := poller_register (socket i) (poller self)\<rparr>"

text \<open>
  The loop \<open>while True\<close> of \<open>event_loop\<close> never ends by itself: the function runs at most
  the given number of rounds and returns \<open>None\<close> when the loop is still running after
  them, and the exception (or \<open>Blocked\<close>) that ended it otherwise.
\<close>

fun event_loop :: "nat \<Rightarrow> Reactor \<Rightarrow> world \<Rightarrow> error option \<times> world" where
  "event_loop 0 self w = (None, w)"
| "event_loop (Suc n) self w =
     (case poll (poller self) w of
        (Inl e, w1) \<Rightarrow> (Some e, w1)
      | (Inr events, w1) \<Rightarrow>
          (case impl self of
             None \<Rightarrow> (Some AttributeError, w1)
           | Some i \<Rightarrow>
               (case socket i of
                  None \<Rightarrow> event_loop n self w1
                | Some s \<Rightarrow>
                    if s \<in> set events
                    then (case handle_message self s w1 of
                            (Inl e, w2) \<Rightarrow> (Some e, w2)
                          | (Inr _, w2) \<Rightarrow> event_loop n self w2)
                    else event_loop n self w1)))"

subsection \<open>The command line\<close>

text \<open>
  The parser of \<open>argparse\<close> as the program sets it up: a description and the list of the
  options added to it. The command line is taken as \<open>argparse\<close> reads it, a list of
  options given with their values (\<open>-p 6000\<close> is \<open>(''-p'', ''6000'')\<close>); how it
  cuts the words of the command line into options and values, and its \<open>-h\<close>, are not
  modelled. The parsed namespace holds the default of every option, overwritten by the
  values given; an option that was never added ends the process with status 2.
\<close>

record argument =
  option_strings :: "string list"
  dflt :: string
  help_text :: string

record ArgumentParser =
  description :: string
  arguments :: "argument list"

type_synonym namespace = "string \<rightharpoonup> string"

definition add_argument :: "string list \<Rightarrow> string \<Rightarrow> string \<Rightarrow> ArgumentParser \<Rightarrow> ArgumentParser" where
  "add_argument flags d h p =
     p\<lparr>arguments := arguments p @ [\<lparr>option_strings = flags, dflt = d, help_text = h\<rparr>]\<rparr>"

text \<open>
  The attribute of the namespace that an option sets: its first long option string, or its
  first option string when none is long, without the leading dashes and with every other
  dash turned into an underscore.
\<close>

definition dest :: "argument \<Rightarrow> string" where
  "dest a =
     (let name = (case filter (\<lambda>f. take 2 f = ''--'') (option_strings a) of
                    l # _ \<Rightarrow> l
                  | [] \<Rightarrow> (case option_strings a of f # _ \<Rightarrow> f | [] \<Rightarrow> []))
      in map (\<lambda>c. if c = CHR ''-'' then CHR ''_'' else c)
           (dropWhile (\<lambda>c. c = CHR ''-'') name))"

fun consume :: "argument list \<Rightarrow> (string \<times> string) list \<Rightarrow> namespace \<Rightarrow> error + namespace" where
  "consume opts [] ns = Inr ns"
| "consume opts ((f, v) # rest) ns =
     (case find (\<lambda>a. f \<in> set (option_strings a)) opts of
        None \<Rightarrow> Inl (SystemExit 2)
      | Some a \<Rightarrow> consume opts rest (ns(dest a \<mapsto> v)))"

definition parse_args :: "ArgumentParser \<Rightarrow> (string \<times> string) list \<Rightarrow> error + namespace" where
  "parse_args p argv =
     consume (arguments p) argv (map_of (map (\<lambda>a. (dest a, dflt a)) (arguments p)))"

definition parser :: ArgumentParser where
  "parser =
     add_argument [''-p'', ''--port''] ''5557''
       ''Port number used by message passing server, default: 5557''
       \<lparr>description = ''Message Passing Server'', arguments = []\<rparr>"

definition parseCmdLineArgs :: "(string \<times> string) list \<Rightarrow> error + namespace" where
  "parseCmdLineArgs argv = parse_args parser argv"

subsection \<open>The main program\<close>

text \<open>\<open>ServerImpl (args)\<close> reads \<open>args.port\<close>.\<close>

definition ServerImpl_init :: "namespace \<Rightarrow> error + ServerImpl" where
  "ServerImpl_init args =
     (case args ''port'' of
        None \<Rightarrow> Inl AttributeError
      | Some p \<Rightarrow> Inr \<lparr>port = p, socket = None\<rparr>)"

text \<open>
  \<open>main\<close> with the event loop run for at most the given number of rounds; the result is
  the result of the event loop, or the exception that ended the program before it.
\<close>

definition main :: "(string \<times> string) list \<Rightarrow> nat \<Rightarrow> world \<Rightarrow> error option \<times> world" where
  "main argv rounds w =
     (case parseCmdLineArgs argv of
        Inl e \<Rightarrow> (Some e, w)
      | Inr args \<Rightarrow>
          let reactor = Reactor_init in
          (case ServerImpl_init args of
             Inl e \<Rightarrow> (Some e, w)
           | Inr impl0 \<Rightarrow>
               (case bind impl0 w of
                  (Inl e, w1) \<Rightarrow> (Some e, w1)
                | (Inr i, w1) \<Rightarrow> event_loop rounds (register reactor i) w1)))"

subsection \<open>What an observer sees\<close>

text \<open>The replies sent on a socket, oldest first, and the upcalls made.\<close>

fun replies :: "sock \<Rightarrow> event list \<Rightarrow> string list" where
  "replies s [] = []"
| "replies s (Send s' m # es) = (if s' = s then m # replies s es else replies s es)"
| "replies s (e # es) = replies s es"

fun is_upcall :: "event \<Rightarrow> bool" where
  "is_upcall (Get i k) = True"
| "is_upcall (Put i k v) = True"
| "is_upcall e = False"

text \<open>
  The requests that have the tokens which \<open>handle_message\<close> reads: a second token
  after \<open>GET\<close>, a second and a third after \<open>PUT\<close>.
\<close>

definition answerable :: "string \<Rightarrow> bool" where
  "answerable msg =
     (case str_split CHR '' '' msg of
        [] \<Rightarrow> False
      | verb # args \<Rightarrow>
          if verb = ''GET'' then 1 \<le> length args
          else if verb = ''PUT'' then 2 \<le> length args
          else True)"

text \<open>The implementation object on which an upcall was made.\<close>

fun upcall_on :: "event \<Rightarrow> ServerImpl option" where
  "upcall_on (Get i k) = Some i"
| "upcall_on (Put i k v) = Some i"
| "upcall_on e = None"

text \<open>
  The state after the oldest request on a socket has been received and the given events
  have happened: with the reply still due, and with the reply sent.
\<close>

definition received :: "sock \<Rightarrow> event list \<Rightarrow> world \<Rightarrow> world" where
  "received s evs w =
     w\<lparr>socks := (socks w)(s := (socks w s)\<lparr>inbox := tl (inbox (socks w s)),
                                            awaiting_send := True\<rparr>),
       trace := trace w @ evs\<rparr>"

definition answered :: "sock \<Rightarrow> event list \<Rightarrow> world \<Rightarrow> world" where
  "answered s evs w =
     w\<lparr>socks := (socks w)(s := (socks w s)\<lparr>inbox := tl (inbox (socks w s)),
                                            awaiting_send := False\<rparr>),
       trace := trace w @ evs\<rparr>"

subsection \<open>A running server\<close>

text \<open>
  The server as \<open>main\<close> leaves it when it is started without options: the implementation
  bound to port 5557 on the first socket and registered with a new reactor, and the given
  requests waiting at the socket.
\<close>

definition server0 :: ServerImpl where
  "server0 = \<lparr>port = ''5557'', socket = Some 0\<rparr>"

text \<open>A second implementation, on another port and socket.\<close>

definition server1 :: ServerImpl where
  "server1 = \<lparr>port = ''5558'', socket = Some 1\<rparr>"

definition reactor0 :: Reactor where
  "reactor0 = register Reactor_init server0"

definition world0 :: "string list \<Rightarrow> world" where
  "world0 msgs =
     \<lparr>socks = (\<lambda>_. \<lparr>endpoints = [], inbox = [], awaiting_send = False\<rparr>)
               (0 := \<lparr>endpoints = [''tcp://*:5557''], inbox = msgs, awaiting_send = False\<rparr>),
      nsocks = 1,
      bindable = (\<lambda>a. a \<noteq> ''tcp://*:5557''),
      incoming = (\<lambda>_. []),
      trace = []\<rparr>"

text \<open>
  The surroundings of a process that has not started yet: no socket exists, every endpoint
  can be bound, and the given requests are sent to port 5557.
\<close>

definition boot :: "string list \<Rightarrow> world" where
  "boot msgs =
     \<lparr>socks = (\<lambda>_. \<lparr>endpoints = [], inbox = [], awaiting_send = False\<rparr>),
      nsocks = 0,
      bindable = (\<lambda>_. True),
      incoming = (\<lambda>a. if a = ''tcp://*:5557'' then msgs else []),
      trace = []\<rparr>"

lemmas fixture_defs = server0_def reactor0_def world0_def register_def Reactor_init_def
  poller_register_def

section \<open>Splitting a message\<close>

lemma str_split_not_Nil: "str_split sep s \<noteq> []"
  by (induction s) (auto split: list.splits)

lemma str_split_token: "sep \<notin> set a \<Longrightarrow> str_split sep a = [a]"
  by (induction a) auto

lemma str_split_append: "sep \<notin> set a \<Longrightarrow> str_split sep (a @ sep # b) = a # str_split sep b"
  by (induction a) auto

lemma length_str_split: "length (str_split sep s) = Suc (count_list s sep)"
  by (induction s) (auto split: list.splits simp: str_split_not_Nil)

lemma index_0_str_split: "index (str_split sep s) 0 = Inr (takeWhile (\<lambda>c. c \<noteq> sep) s)"
  by (induction s) (auto simp: index_def str_split_not_Nil split: list.splits)

lemma replies_append: "replies s (es @ fs) = replies s es @ replies s fs"
  by (induction s es rule: replies.induct) auto

section \<open>One call of \<open>handle_message\<close>, by the tokens of the request\<close>

lemma handle_message_GET:
  assumes "inbox (socks w s) = msg # rest" "\<not> awaiting_send (socks w s)"
    and "str_split CHR '' '' msg = ''GET'' # key # tks" "impl self = Some i"
  shows "handle_message self s w = (Inr (), answered s [Recv s msg, Get i key, Send s key] w)"
  using assms
  by (simp add: handle_message_def and_then_def recv_string_def send_string_def lift_def
      index_def the_impl_def get_def emit_def answered_def Let_def)

lemma handle_message_PUT:
  assumes "inbox (socks w s) = msg # rest" "\<not> awaiting_send (socks w s)"
    and "str_split CHR '' '' msg = ''PUT'' # key # val # tks" "impl self = Some i"
  shows "handle_message self s w =
           (Inr (), answered s [Recv s msg, Put i key val, Send s ''ack''] w)"
  using assms
  by (simp add: handle_message_def and_then_def recv_string_def send_string_def lift_def
      index_def the_impl_def put_def emit_def answered_def Let_def)

lemma handle_message_other:
  assumes "inbox (socks w s) = msg # rest" "\<not> awaiting_send (socks w s)"
    and "str_split CHR '' '' msg = verb # tks" "verb \<noteq> ''GET''" "verb \<noteq> ''PUT''"
  shows "handle_message self s w =
         (Inr (), answered s [Recv s msg, Send s ''Sorry, unrecognized command''] w)"
  using assms
  by (simp add: handle_message_def and_then_def recv_string_def send_string_def lift_def
      index_def emit_def answered_def Let_def)

lemma handle_message_GET_short:
  assumes "inbox (socks w s) = msg # rest" "\<not> awaiting_send (socks w s)"
    and "str_split CHR '' '' msg = [''GET'']" "impl self = Some i"
  shows "handle_message self s w = (Inl IndexError, received s [Recv s msg] w)"
  using assms
  by (simp add: handle_message_def and_then_def recv_string_def send_string_def lift_def
      index_def the_impl_def emit_def received_def Let_def)

lemma handle_message_PUT_short:
  assumes "inbox (socks w s) = msg # rest" "\<not> awaiting_send (socks w s)"
    and "str_split CHR '' '' msg = ''PUT'' # tks" "length tks < 2" "impl self = Some i"
  shows "handle_message self s w = (Inl IndexError, received s [Recv s msg] w)"
  using assms
  by (auto simp add: handle_message_def and_then_def recv_string_def send_string_def lift_def
      index_def the_impl_def emit_def received_def Let_def)

section \<open>Requests and their replies\<close>

text \<open>
  C1. A request whose first token is \<open>GET\<close> or \<open>PUT\<close> and that lacks the tokens after it
  should be answered with the reply for an unrecognized command. The code does not do
  that: on the request \<open>GET\<close>, and on the request \<open>PUT k\<close>, \<open>handle_message\<close> receives the
  request, raises \<open>IndexError\<close> when it reads the missing token, and sends no reply.
\<close>

theorem missing_token_raises:
  "handle_message reactor0 0 (world0 [''GET'']) =
     (Inl IndexError, received 0 [Recv 0 ''GET''] (world0 [''GET'']))
   \<and> handle_message reactor0 0 (world0 [''PUT k'']) =
     (Inl IndexError, received 0 [Recv 0 ''PUT k''] (world0 [''PUT k'']))
   \<and> replies 0 (trace (received 0 [Recv 0 ''GET''] (world0 [''GET'']))) = []
   \<and> replies 0 (trace (received 0 [Recv 0 ''PUT k''] (world0 [''PUT k'']))) = []"
proof -
  have g: "handle_message reactor0 0 (world0 [''GET'']) =
     (Inl IndexError, received 0 [Recv 0 ''GET''] (world0 [''GET'']))"
    by (rule handle_message_GET_short [where rest = "[]" and i = server0])
       (simp_all add: fixture_defs)
  have p: "handle_message reactor0 0 (world0 [''PUT k'']) =
     (Inl IndexError, received 0 [Recv 0 ''PUT k''] (world0 [''PUT k'']))"
    by (rule handle_message_PUT_short [where rest = "[]" and i = server0 and tks = "[''k'']"])
       (simp_all add: fixture_defs)
  show ?thesis using g p by (simp add: received_def world0_def)
qed

text \<open>
  C2. When an implementation is registered and the socket may receive, the request
  \<open>GET key\<close>, for a key without a space, is answered with the key itself: the call
  receives the request, calls \<open>get\<close> with the key, and sends what \<open>get\<close> returns, which is
  its argument.
\<close>

theorem get_reply_is_key:
  assumes "CHR '' '' \<notin> set key" and "impl self = Some i"
    and "inbox (socks w s) = (''GET '' @ key) # rest" and "\<not> awaiting_send (socks w s)"
  shows "handle_message self s w =
           (Inr (), answered s [Recv s (''GET '' @ key), Get i key, Send s key] w)
         \<and> fst (get i key (received s [Recv s (''GET '' @ key)] w)) = Inr key"
proof -
  have "str_split CHR '' '' (''GET '' @ key) = ''GET'' # [key]"
    using str_split_append [of "CHR '' ''" "''GET''" key] assms(1)
    by (simp add: str_split_token)
  then show ?thesis
    using handle_message_GET [OF assms(3,4) _ assms(2)] by (simp add: get_def)
qed

theorem get_reply_is_key_witness:
  "CHR '' '' \<notin> set ''hello'' \<and> impl reactor0 = Some server0
   \<and> inbox (socks (world0 [''GET hello'']) 0) = (''GET '' @ ''hello'') # []
   \<and> \<not> awaiting_send (socks (world0 [''GET hello'']) 0)
   \<and> handle_message reactor0 0 (world0 [''GET hello'']) =
       (Inr (), answered 0 [Recv 0 ''GET hello'', Get server0 ''hello'', Send 0 ''hello'']
                  (world0 [''GET hello'']))
   \<and> replies 0 (trace (snd (handle_message reactor0 0 (world0 [''GET hello''])))) = [''hello'']"
proof -
  have h: "CHR '' '' \<notin> set ''hello''" "impl reactor0 = Some server0"
    "inbox (socks (world0 [''GET hello'']) 0) = (''GET '' @ ''hello'') # []"
    "\<not> awaiting_send (socks (world0 [''GET hello'']) 0)"
    by (simp_all add: fixture_defs)
  show ?thesis
    using h get_reply_is_key [OF h]
    by (simp add: answered_def world0_def)
qed

text \<open>
  C3. When an implementation is registered and the socket may receive, the request
  \<open>PUT key value\<close>, for a key and a value without a space, is answered with \<open>ack\<close>
  whatever the key and the value are: the call receives the request, calls \<open>put\<close> with the
  key and the value, and sends the literal \<open>ack\<close>, not the \<open>ACK\<close> that \<open>put\<close> returns.
\<close>

theorem put_reply_is_ack:
  assumes "CHR '' '' \<notin> set key" and "CHR '' '' \<notin> set val" and "impl self = Some i"
    and "inbox (socks w s) = (''PUT '' @ key @ '' '' @ val) # rest"
    and "\<not> awaiting_send (socks w s)"
  shows "handle_message self s w =
           (Inr (), answered s [Recv s (''PUT '' @ key @ '' '' @ val), Put i key val,
                                Send s ''ack''] w)
         \<and> fst (put i key val (received s [Recv s (''PUT '' @ key @ '' '' @ val)] w)) = Inr ''ACK''
         \<and> ''ack'' \<noteq> ''ACK''"
proof -
  have "str_split CHR '' '' (key @ CHR '' '' # val) = [key, val]"
    using assms(1,2) by (simp add: str_split_append str_split_token)
  then have "str_split CHR '' '' (''PUT '' @ key @ '' '' @ val) = ''PUT'' # key # val # []"
    using str_split_append [of "CHR '' ''" "''PUT''" "key @ '' '' @ val"] by simp
  then show ?thesis
    using handle_message_PUT [OF assms(4,5) _ assms(3)] by (simp add: put_def)
qed

theorem put_reply_is_ack_witness:
  "CHR '' '' \<notin> set ''foo'' \<and> CHR '' '' \<notin> set ''bar'' \<and> impl reactor0 = Some server0
   \<and> inbox (socks (world0 [''PUT foo bar'']) 0) = (''PUT '' @ ''foo'' @ '' '' @ ''bar'') # []
   \<and> \<not> awaiting_send (socks (world0 [''PUT foo bar'']) 0)
   \<and> handle_message reactor0 0 (world0 [''PUT foo bar'']) =
       (Inr (), answered 0 [Recv 0 ''PUT foo bar'', Put server0 ''foo'' ''bar'', Send 0 ''ack'']
                  (world0 [''PUT foo bar'']))
   \<and> replies 0 (trace (snd (handle_message reactor0 0 (world0 [''PUT foo bar''])))) = [''ack'']"
proof -
  have h: "CHR '' '' \<notin> set ''foo''" "CHR '' '' \<notin> set ''bar''" "impl reactor0 = Some server0"
    "inbox (socks (world0 [''PUT foo bar'']) 0) = (''PUT '' @ ''foo'' @ '' '' @ ''bar'') # []"
    "\<not> awaiting_send (socks (world0 [''PUT foo bar'']) 0)"
    by (simp_all add: fixture_defs)
  show ?thesis
    using h put_reply_is_ack [OF h]
    by (simp add: answered_def world0_def)
qed

text \<open>
  C4. When the socket may receive, a request whose first token is neither \<open>GET\<close> nor
  \<open>PUT\<close> is answered with \<open>Sorry, unrecognized command\<close>, and the call does nothing but
  receive the request and send this reply: it makes no upcall, whether or not an
  implementation is registered.
\<close>

theorem unknown_verb_reply:
  assumes "inbox (socks w s) = msg # rest" and "\<not> awaiting_send (socks w s)"
    and "index (str_split CHR '' '' msg) 0 = Inr verb"
    and "verb \<noteq> ''GET''" and "verb \<noteq> ''PUT''"
  shows "handle_message self s w =
           (Inr (), answered s [Recv s msg, Send s ''Sorry, unrecognized command''] w)
         \<and> filter is_upcall (trace (snd (handle_message self s w))) = filter is_upcall (trace w)"
proof -
  obtain t ts where "str_split CHR '' '' msg = t # ts"
    using str_split_not_Nil [of "CHR '' ''" msg] by (cases "str_split CHR '' '' msg") auto
  moreover from this assms(3) have "t = verb" by (simp add: index_def)
  ultimately have "handle_message self s w =
           (Inr (), answered s [Recv s msg, Send s ''Sorry, unrecognized command''] w)"
    using handle_message_other [OF assms(1,2) _ assms(4,5)] by simp
  then show ?thesis by (simp add: answered_def)
qed

theorem unknown_verb_reply_witness:
  "inbox (socks (world0 [''DELETE foo'']) 0) = ''DELETE foo'' # []
   \<and> \<not> awaiting_send (socks (world0 [''DELETE foo'']) 0)
   \<and> index (str_split CHR '' '' ''DELETE foo'') 0 = Inr ''DELETE''
   \<and> ''DELETE'' \<noteq> ''GET'' \<and> ''DELETE'' \<noteq> ''PUT''
   \<and> handle_message reactor0 0 (world0 [''DELETE foo'']) =
       (Inr (), answered 0 [Recv 0 ''DELETE foo'', Send 0 ''Sorry, unrecognized command'']
                  (world0 [''DELETE foo'']))
   \<and> trace (snd (handle_message reactor0 0 (world0 [''DELETE foo'']))) =
       [Recv 0 ''DELETE foo'', Send 0 ''Sorry, unrecognized command'']"
proof -
  have h: "inbox (socks (world0 [''DELETE foo'']) 0) = ''DELETE foo'' # []"
    "\<not> awaiting_send (socks (world0 [''DELETE foo'']) 0)"
    "index (str_split CHR '' '' ''DELETE foo'') 0 = Inr ''DELETE''"
    "''DELETE'' \<noteq> ''GET''" "''DELETE'' \<noteq> ''PUT''"
    by (simp_all add: fixture_defs index_def)
  show ?thesis
    using h unknown_verb_reply [OF h, of reactor0]
    by (simp add: answered_def world0_def)
qed

text \<open>
  C9. Splitting the empty message gives the list that holds the empty string, and the
  first token of any message is defined. When the socket may receive, the empty message,
  and any message whose text before the first space is neither \<open>GET\<close> nor \<open>PUT\<close>
  (lowercase \<open>get\<close> and \<open>put\<close> among them), is handled without an exception, and the
  reply \<open>Sorry, unrecognized command\<close> is sent on the socket.
\<close>

theorem empty_message_no_fault:
  assumes "inbox (socks w s) = msg # rest" and "\<not> awaiting_send (socks w s)"
    and "msg = '''' \<or> takeWhile (\<lambda>c. c \<noteq> CHR '' '') msg \<notin> {''GET'', ''PUT''}"
  shows "str_split CHR '' '' '''' = ['''']
         \<and> (\<exists>verb. index (str_split CHR '' '' msg) 0 = Inr verb)
         \<and> fst (handle_message self s w) = Inr ()
         \<and> replies s (trace (snd (handle_message self s w))) =
             replies s (trace w) @ [''Sorry, unrecognized command'']"
proof -
  let ?verb = "takeWhile (\<lambda>c. c \<noteq> CHR '' '') msg"
  have v: "index (str_split CHR '' '' msg) 0 = Inr ?verb"
    by (rule index_0_str_split)
  have "?verb \<noteq> ''GET'' \<and> ?verb \<noteq> ''PUT''"
    using assms(3) by auto
  moreover obtain ts where "str_split CHR '' '' msg = ?verb # ts"
    using v str_split_not_Nil [of "CHR '' ''" msg]
    by (cases "str_split CHR '' '' msg") (auto simp: index_def)
  ultimately have "handle_message self s w =
           (Inr (), answered s [Recv s msg, Send s ''Sorry, unrecognized command''] w)"
    using handle_message_other [OF assms(1,2)] by simp
  then show ?thesis using v by (simp add: answered_def replies_append)
qed

theorem empty_message_no_fault_witness:
  "inbox (socks (world0 ['''']) 0) = '''' # []
   \<and> \<not> awaiting_send (socks (world0 ['''']) 0)
   \<and> fst (handle_message Reactor_init 0 (world0 [''''])) = Inr ()
   \<and> replies 0 (trace (snd (handle_message Reactor_init 0 (world0 ['''']))))
       = [''Sorry, unrecognized command'']
   \<and> inbox (socks (world0 [''get k'']) 0) = ''get k'' # []
   \<and> takeWhile (\<lambda>c. c \<noteq> CHR '' '') ''get k'' \<notin> {''GET'', ''PUT''}
   \<and> fst (handle_message reactor0 0 (world0 [''get k''])) = Inr ()
   \<and> replies 0 (trace (snd (handle_message reactor0 0 (world0 [''get k'']))))
       = [''Sorry, unrecognized command'']"
proof -
  have h: "inbox (socks (world0 ['''']) 0) = '''' # []"
    "\<not> awaiting_send (socks (world0 ['''']) 0)"
    "'''' = '''' \<or> takeWhile (\<lambda>c. c \<noteq> CHR '' '') '''' \<notin> {''GET'', ''PUT''}"
    by (simp_all add: fixture_defs)
  have g: "inbox (socks (world0 [''get k'']) 0) = ''get k'' # []"
    "\<not> awaiting_send (socks (world0 [''get k'']) 0)"
    "''get k'' = '''' \<or> takeWhile (\<lambda>c. c \<noteq> CHR '' '') ''get k'' \<notin> {''GET'', ''PUT''}"
    by (simp_all add: fixture_defs)
  show ?thesis
    using h g empty_message_no_fault [OF h, of Reactor_init]
      empty_message_no_fault [OF g, of reactor0]
    by (simp add: world0_def)
qed

text \<open>
  C10. Tokens after the ones a command needs are ignored. When an implementation is
  registered and the socket may receive, a request whose tokens start with \<open>GET\<close> and a
  second token is answered with the second token, which alone is passed to \<open>get\<close>; a
  request whose tokens start with \<open>PUT\<close>, a second and a third token is answered with
  \<open>ack\<close>, and the second and the third token alone are passed to \<open>put\<close>.
\<close>

theorem extra_tokens_ignored:
  assumes "inbox (socks w s) = msg # rest" and "\<not> awaiting_send (socks w s)"
    and "impl self = Some i"
  shows "(\<forall>key tks. str_split CHR '' '' msg = ''GET'' # key # tks \<longrightarrow>
            handle_message self s w =
              (Inr (), answered s [Recv s msg, Get i key, Send s key] w))
       \<and> (\<forall>key val tks. str_split CHR '' '' msg = ''PUT'' # key # val # tks \<longrightarrow>
            handle_message self s w =
              (Inr (), answered s [Recv s msg, Put i key val, Send s ''ack''] w))"
  using handle_message_GET [OF assms(1,2) _ assms(3)]
    handle_message_PUT [OF assms(1,2) _ assms(3)]
  by blast

theorem extra_tokens_ignored_witness:
  "inbox (socks (world0 [''GET a b'']) 0) = ''GET a b'' # []
   \<and> \<not> awaiting_send (socks (world0 [''GET a b'']) 0)
   \<and> impl reactor0 = Some server0
   \<and> str_split CHR '' '' ''GET a b'' = ''GET'' # ''a'' # [''b'']
   \<and> trace (snd (handle_message reactor0 0 (world0 [''GET a b'']))) =
       [Recv 0 ''GET a b'', Get server0 ''a'', Send 0 ''a'']
   \<and> inbox (socks (world0 [''PUT a b c d'']) 0) = ''PUT a b c d'' # []
   \<and> str_split CHR '' '' ''PUT a b c d'' = ''PUT'' # ''a'' # ''b'' # [''c'', ''d'']
   \<and> trace (snd (handle_message reactor0 0 (world0 [''PUT a b c d'']))) =
       [Recv 0 ''PUT a b c d'', Put server0 ''a'' ''b'', Send 0 ''ack'']"
proof -
  have g: "inbox (socks (world0 [''GET a b'']) 0) = ''GET a b'' # []"
    "\<not> awaiting_send (socks (world0 [''GET a b'']) 0)" "impl reactor0 = Some server0"
    by (simp_all add: fixture_defs)
  have p: "inbox (socks (world0 [''PUT a b c d'']) 0) = ''PUT a b c d'' # []"
    "\<not> awaiting_send (socks (world0 [''PUT a b c d'']) 0)" "impl reactor0 = Some server0"
    by (simp_all add: fixture_defs)
  have sg: "str_split CHR '' '' ''GET a b'' = ''GET'' # ''a'' # [''b'']"
    and sp: "str_split CHR '' '' ''PUT a b c d'' = ''PUT'' # ''a'' # ''b'' # [''c'', ''d'']"
    by simp_all
  show ?thesis
    using g p sg sp extra_tokens_ignored [OF g] extra_tokens_ignored [OF p]
    by (simp add: answered_def world0_def)
qed

text \<open>
  C6. When an implementation is registered and the socket may receive, the same request
  \<open>GET key\<close> (the key without a space) handled twice in a row is answered both times, and
  both times with the same reply, the key.
\<close>

theorem get_twice_same_reply:
  assumes "CHR '' '' \<notin> set key" and "impl self = Some i"
    and "inbox (socks w s) = (''GET '' @ key) # (''GET '' @ key) # rest"
    and "\<not> awaiting_send (socks w s)"
  shows "\<exists>w1 w2. handle_message self s w = (Inr (), w1)
           \<and> handle_message self s w1 = (Inr (), w2)
           \<and> replies s (trace w1) = replies s (trace w) @ [key]
           \<and> replies s (trace w2) = replies s (trace w1) @ [key]"
proof -
  let ?m = "''GET '' @ key"
  let ?w1 = "answered s [Recv s ?m, Get i key, Send s key] w"
  let ?w2 = "answered s [Recv s ?m, Get i key, Send s key] ?w1"
  have sp: "str_split CHR '' '' ?m = ''GET'' # key # []"
    using str_split_append [of "CHR '' ''" "''GET''" key] assms(1)
    by (simp add: str_split_token)
  have 1: "handle_message self s w = (Inr (), ?w1)"
    using handle_message_GET [OF assms(3,4) _ assms(2)] sp by simp
  have "inbox (socks ?w1 s) = ?m # rest" "\<not> awaiting_send (socks ?w1 s)"
    using assms(3) by (simp_all add: answered_def)
  then have 2: "handle_message self s ?w1 = (Inr (), ?w2)"
    using handle_message_GET [of ?w1 s ?m rest key "[]" self i] sp assms(2) by simp
  have "replies s (trace ?w1) = replies s (trace w) @ [key]"
    "replies s (trace ?w2) = replies s (trace ?w1) @ [key]"
    by (simp_all add: answered_def replies_append)
  with 1 2 show ?thesis by blast
qed

theorem get_twice_same_reply_witness:
  "CHR '' '' \<notin> set ''a'' \<and> impl reactor0 = Some server0
   \<and> inbox (socks (world0 [''GET a'', ''GET a'']) 0) = (''GET '' @ ''a'') # (''GET '' @ ''a'') # []
   \<and> \<not> awaiting_send (socks (world0 [''GET a'', ''GET a'']) 0)
   \<and> (\<exists>w1 w2. handle_message reactor0 0 (world0 [''GET a'', ''GET a'']) = (Inr (), w1)
           \<and> handle_message reactor0 0 w1 = (Inr (), w2)
           \<and> replies 0 (trace w1) = [''a'']
           \<and> replies 0 (trace w2) = [''a'', ''a''])"
proof -
  have h: "CHR '' '' \<notin> set ''a''" "impl reactor0 = Some server0"
    "inbox (socks (world0 [''GET a'', ''GET a'']) 0) = (''GET '' @ ''a'') # (''GET '' @ ''a'') # []"
    "\<not> awaiting_send (socks (world0 [''GET a'', ''GET a'']) 0)"
    by (simp_all add: fixture_defs)
  have "replies 0 (trace (world0 [''GET a'', ''GET a''])) = []"
    by (simp add: world0_def)
  then show ?thesis
    using h get_twice_same_reply [OF h] by auto
qed

section \<open>The event loop\<close>

lemma poll_world: "poll ps w = (r, w') \<Longrightarrow> w' = w"
  by (auto simp: poll_def split: if_splits list.splits)

lemma handle_message_upcalls:
  "\<exists>new. trace (snd (handle_message self s w)) = trace w @ new
         \<and> (\<forall>e \<in> set new. upcall_on e = None \<or> upcall_on e = impl self)"
  by (auto simp: handle_message_def and_then_def recv_string_def send_string_def lift_def
      index_def the_impl_def get_def put_def emit_def Let_def
      split: list.splits option.splits)

lemma event_loop_upcalls:
  "\<exists>new. trace (snd (event_loop n self w)) = trace w @ new
         \<and> (\<forall>e \<in> set new. upcall_on e = None \<or> upcall_on e = impl self)"
proof (induction n arbitrary: w)
  case 0
  show ?case by simp
next
  case (Suc n)
  show ?case
  proof (cases "poll (poller self) w")
    case (Pair r w1)
    then have w1: "w1 = w" by (rule poll_world)
    show ?thesis
    proof (cases r)
      case (Inl e)
      with Pair w1 show ?thesis by simp
    next
      case (Inr events)
      show ?thesis
      proof (cases "impl self")
        case None
        with Pair Inr w1 show ?thesis by simp
      next
        case (Some i)
        show ?thesis
        proof (cases "\<exists>s. socket i = Some s \<and> s \<in> set events")
          case False
          then have "event_loop (Suc n) self w = event_loop n self w"
            using Pair Inr Some w1 by (auto split: option.splits)
          then show ?thesis using Suc.IH [of w] by simp
        next
          case True
          then obtain s where s: "socket i = Some s" "s \<in> set events" by blast
          obtain r2 w2 where h: "handle_message self s w = (r2, w2)"
            by (cases "handle_message self s w")
          obtain new1 where n1: "trace w2 = trace w @ new1"
            "\<forall>e \<in> set new1. upcall_on e = None \<or> upcall_on e = impl self"
            using handle_message_upcalls [of self s w] h by auto
          show ?thesis
          proof (cases r2)
            case (Inl e)
            then have "event_loop (Suc n) self w = (Some e, w2)"
              using Pair Inr Some w1 s h by simp
            then show ?thesis using n1 by simp
          next
            case (Inr u)
            then have el: "event_loop (Suc n) self w = event_loop n self w2"
              using Pair \<open>r = Inr events\<close> Some w1 s h by simp
            obtain new2 where n2: "trace (snd (event_loop n self w2)) = trace w2 @ new2"
              "\<forall>e \<in> set new2. upcall_on e = None \<or> upcall_on e = impl self"
              using Suc.IH [of w2] by blast
            have "trace (snd (event_loop (Suc n) self w)) = trace w @ (new1 @ new2)"
              using el n1 n2 by simp
            moreover have "\<forall>e \<in> set (new1 @ new2). upcall_on e = None \<or> upcall_on e = impl self"
              using n1 n2 by auto
            ultimately show ?thesis by blast
          qed
        qed
      qed
    qed
  qed
qed

text \<open>
  C7. After \<open>register\<close> has been called with a first and then with a second
  implementation, the reactor's implementation is the second one, and every upcall that
  the event loop makes from then on, however long it runs and whatever arrives, is made
  on the second one.
\<close>

theorem second_register_replaces:
  "impl (register (register self h1) h2) = Some h2
   \<and> (\<exists>new. trace (snd (event_loop n (register (register self h1) h2) w)) = trace w @ new
         \<and> (\<forall>e \<in> set new. upcall_on e = None \<or> upcall_on e = Some h2))"
proof -
  have "impl (register (register self h1) h2) = Some h2"
    by (simp add: register_def)
  then show ?thesis
    using event_loop_upcalls [of n "register (register self h1) h2" w] by simp
qed

theorem second_register_replaces_witness:
  "impl (register (register Reactor_init server1) server0) = Some server0
   \<and> poller (register (register Reactor_init server1) server0) = [Some 1, Some 0]
   \<and> trace (snd (event_loop (Suc (Suc 0)) (register (register Reactor_init server1) server0)
                   (world0 [''GET a'', ''PUT b c''])))
       = [Recv 0 ''GET a'', Get server0 ''a'', Send 0 ''a'',
          Recv 0 ''PUT b c'', Put server0 ''b'' ''c'', Send 0 ''ack'']
   \<and> map upcall_on (trace (snd (event_loop (Suc (Suc 0))
          (register (register Reactor_init server1) server0) (world0 [''GET a'', ''PUT b c'']))))
       = [None, Some server0, None, None, Some server0, None]"
proof -
  have t: "trace (snd (event_loop (Suc (Suc 0)) (register (register Reactor_init server1) server0)
                   (world0 [''GET a'', ''PUT b c''])))
       = [Recv 0 ''GET a'', Get server0 ''a'', Send 0 ''a'',
          Recv 0 ''PUT b c'', Put server0 ''b'' ''c'', Send 0 ''ack'']"
    by (simp add: fixture_defs server1_def poll_def readable_def
        handle_message_def and_then_def recv_string_def send_string_def lift_def
        index_def the_impl_def get_def put_def emit_def Let_def)
  show ?thesis
    using second_register_replaces [of Reactor_init server1 server0 "Suc (Suc 0)"
        "world0 [''GET a'', ''PUT b c'']"] t
    by (simp add: fixture_defs server1_def)
qed

text \<open>
  A call of \<open>handle_message\<close> that returns has received one request, made at most one
  upcall, and then sent one reply.
\<close>

lemma handle_message_returns:
  assumes "handle_message self s w = (Inr u, w')"
  shows "\<exists>msg calls reply. trace w' = trace w @ [Recv s msg] @ calls @ [Send s reply]
           \<and> length calls \<le> 1 \<and> (\<forall>e \<in> set calls. is_upcall e)
           \<and> inbox (socks w s) = msg # inbox (socks w' s)"
  using assms
  by (auto simp: handle_message_def and_then_def recv_string_def send_string_def lift_def
      index_def the_impl_def get_def put_def emit_def Let_def
      split: list.splits option.splits if_splits)

text \<open>
  On a request that has the tokens it reads, \<open>handle_message\<close> returns; and when every
  request waiting at the socket of the registered implementation is such a request, the
  event loop answers them one after the other, one reply for each, and then waits.
\<close>

lemma handle_message_answerable:
  assumes "inbox (socks w s) = msg # rest" and "\<not> awaiting_send (socks w s)"
    and "impl self = Some i" and "answerable msg"
  shows "\<exists>calls reply. handle_message self s w =
             (Inr (), answered s (Recv s msg # calls @ [Send s reply]) w)
           \<and> (\<forall>e \<in> set calls. is_upcall e)"
proof (cases "str_split CHR '' '' msg")
  case Nil
  with assms(4) show ?thesis by (simp add: answerable_def)
next
  case (Cons verb args)
  consider (g) "verb = ''GET''" | (p) "verb = ''PUT''" | (o) "verb \<noteq> ''GET''" "verb \<noteq> ''PUT''"
    by blast
  then show ?thesis
  proof cases
    case g
    with Cons assms(4) obtain key tks where "args = key # tks"
      by (cases args) (auto simp: answerable_def)
    with g Cons have "handle_message self s w =
        (Inr (), answered s [Recv s msg, Get i key, Send s key] w)"
      using handle_message_GET [OF assms(1,2) _ assms(3)] by simp
    then have "handle_message self s w =
        (Inr (), answered s (Recv s msg # [Get i key] @ [Send s key]) w)
        \<and> (\<forall>e \<in> set [Get i key]. is_upcall e)" by simp
    then show ?thesis by blast
  next
    case p
    with Cons assms(4) obtain key val tks where "args = key # val # tks"
      by (cases args; cases "tl args") (auto simp: answerable_def)
    with p Cons have "handle_message self s w =
        (Inr (), answered s [Recv s msg, Put i key val, Send s ''ack''] w)"
      using handle_message_PUT [OF assms(1,2) _ assms(3)] by simp
    then have "handle_message self s w =
        (Inr (), answered s (Recv s msg # [Put i key val] @ [Send s ''ack'']) w)
        \<and> (\<forall>e \<in> set [Put i key val]. is_upcall e)" by simp
    then show ?thesis by blast
  next
    case o
    with Cons have "handle_message self s w =
        (Inr (), answered s [Recv s msg, Send s ''Sorry, unrecognized command''] w)"
      using handle_message_other [OF assms(1,2)] by simp
    then have "handle_message self s w =
        (Inr (), answered s (Recv s msg # [] @ [Send s ''Sorry, unrecognized command'']) w)
        \<and> (\<forall>e \<in> set []. is_upcall e)" by simp
    then show ?thesis by blast
  qed
qed

lemma replies_upcalls: "\<forall>e \<in> set es. is_upcall e \<Longrightarrow> replies s es = []"
  by (induction s es rule: replies.induct) auto

lemma poll_single:
  assumes "inbox (socks w s) \<noteq> []" and "\<not> awaiting_send (socks w s)"
  shows "poll [Some s] w = (Inr [s], w)"
  using assms by (simp add: poll_def readable_def)

lemma poll_single_empty:
  assumes "inbox (socks w s) = []"
  shows "poll [Some s] w = (Inl Blocked, w)"
  using assms by (simp add: poll_def readable_def)

lemma event_loop_answers_all:
  assumes "impl self = Some i" and "socket i = Some s" and "poller self = [Some s]"
    and "inbox (socks w s) = msgs" and "\<not> awaiting_send (socks w s)"
    and "\<forall>m \<in> set msgs. answerable m"
  shows "\<exists>w'. event_loop (length msgs + k) self w = event_loop k self w'
            \<and> length (replies s (trace w')) = length (replies s (trace w)) + length msgs
            \<and> inbox (socks w' s) = [] \<and> \<not> awaiting_send (socks w' s)"
  using assms(4,5,6)
proof (induction msgs arbitrary: w)
  case Nil
  then show ?case by auto
next
  case (Cons m ms)
  from Cons.prems obtain calls reply where
    h: "handle_message self s w = (Inr (), answered s (Recv s m # calls @ [Send s reply]) w)"
    and c: "\<forall>e \<in> set calls. is_upcall e"
    using handle_message_answerable [of w s m ms self i] assms(1) by auto
  let ?w1 = "answered s (Recv s m # calls @ [Send s reply]) w"
  have p: "poll (poller self) w = (Inr [s], w)"
    using Cons.prems assms(3) by (simp add: poll_single)
  have step: "event_loop (Suc (length ms + k)) self w = event_loop (length ms + k) self ?w1"
    using p h assms(1,2) by simp
  have "inbox (socks ?w1 s) = ms" "\<not> awaiting_send (socks ?w1 s)"
    using Cons.prems by (simp_all add: answered_def)
  moreover have "\<forall>m \<in> set ms. answerable m" using Cons.prems by simp
  ultimately obtain w' where
    w': "event_loop (length ms + k) self ?w1 = event_loop k self w'"
        "length (replies s (trace w')) = length (replies s (trace ?w1)) + length ms"
        "inbox (socks w' s) = []" "\<not> awaiting_send (socks w' s)"
    using Cons.IH [of ?w1] by blast
  have "length (replies s (trace ?w1)) = Suc (length (replies s (trace w)))"
  proof -
    have "replies s (calls @ [Send s reply]) = replies s calls @ [reply]"
      by (simp add: replies_append)
    moreover have "replies s calls = []" using c by (rule replies_upcalls)
    ultimately show ?thesis by (simp add: answered_def replies_append)
  qed
  with step w' show ?case by auto
qed

lemma event_loop_answers_then_waits:
  assumes "impl self = Some i" and "socket i = Some s" and "poller self = [Some s]"
    and "inbox (socks w s) = msgs" and "\<not> awaiting_send (socks w s)"
    and "\<forall>m \<in> set msgs. answerable m"
  shows "fst (event_loop (length msgs) self w) = None
       \<and> fst (event_loop (Suc (length msgs)) self w) = Some Blocked"
proof -
  obtain w0 where "event_loop (length msgs + 0) self w = event_loop 0 self w0"
    using event_loop_answers_all [OF assms, of 0] by blast
  then have a: "fst (event_loop (length msgs) self w) = None" by simp
  obtain w1 where w1: "event_loop (length msgs + Suc 0) self w = event_loop (Suc 0) self w1"
    "inbox (socks w1 s) = []"
    using event_loop_answers_all [OF assms, of "Suc 0"] by blast
  have "event_loop (Suc 0) self w1 = (Some Blocked, w1)"
    using w1(2) assms(3) by (simp add: poll_single_empty)
  with w1(1) have "fst (event_loop (Suc (length msgs)) self w) = Some Blocked" by simp
  with a show ?thesis by simp
qed

text \<open>
  C5. Every request received should be answered with exactly one reply, so that N requests
  in a row give N replies. The code does not do that: with the requests \<open>GET\<close> and
  \<open>GET a\<close> waiting at the socket, the event loop receives the first one, the call of
  \<open>handle_message\<close> raises \<open>IndexError\<close> before it has sent anything, the exception ends
  the loop, and the second request is never received: two requests, no reply.
\<close>

theorem malformed_request_stops_loop:
  "event_loop (Suc (Suc 0)) reactor0 (world0 [''GET'', ''GET a'']) =
     (Some IndexError, received 0 [Recv 0 ''GET''] (world0 [''GET'', ''GET a'']))
   \<and> replies 0 (trace (snd (event_loop (Suc (Suc 0)) reactor0 (world0 [''GET'', ''GET a''])))) = []
   \<and> inbox (socks (snd (event_loop (Suc (Suc 0)) reactor0 (world0 [''GET'', ''GET a'']))) 0)
       = [''GET a'']"
proof -
  have p: "poll (poller reactor0) (world0 [''GET'', ''GET a'']) =
             (Inr [0], world0 [''GET'', ''GET a''])"
    by (simp add: fixture_defs poll_def readable_def)
  have h: "handle_message reactor0 0 (world0 [''GET'', ''GET a'']) =
     (Inl IndexError, received 0 [Recv 0 ''GET''] (world0 [''GET'', ''GET a'']))"
    by (rule handle_message_GET_short [where rest = "[''GET a'']" and i = server0])
       (simp_all add: fixture_defs)
  have e: "event_loop (Suc (Suc 0)) reactor0 (world0 [''GET'', ''GET a'']) =
     (Some IndexError, received 0 [Recv 0 ''GET''] (world0 [''GET'', ''GET a'']))"
    using p h by (simp add: reactor0_def register_def server0_def Reactor_init_def)
  show ?thesis unfolding e by (simp add: received_def world0_def)
qed

section \<open>The command line and the binding of the socket\<close>

lemma parser_arguments:
  "arguments parser =
     [\<lparr>option_strings = [''-p'', ''--port''], dflt = ''5557'',
       help_text = ''Port number used by message passing server, default: 5557''\<rparr>]"
  by (simp add: parser_def add_argument_def)

lemma dest_port: "dest \<lparr>option_strings = [''-p'', ''--port''], dflt = d, help_text = h\<rparr> = ''port''"
  by (simp add: dest_def)

lemma parseCmdLineArgs_Nil: "parseCmdLineArgs [] = Inr [''port'' \<mapsto> ''5557'']"
  by (simp add: parseCmdLineArgs_def parse_args_def parser_arguments dest_port)

lemma parseCmdLineArgs_not_supplied:
  assumes "parseCmdLineArgs argv = Inr args"
    and "\<forall>a \<in> set argv. fst a \<notin> {''-p'', ''--port''}"
  shows "argv = []"
proof (cases argv)
  case Nil
  then show ?thesis .
next
  case (Cons a rest)
  obtain f v where a: "a = (f, v)" by (cases a)
  with Cons assms(2) have "f \<noteq> ''-p''" "f \<noteq> ''--port''" by auto
  then have "parseCmdLineArgs argv = Inl (SystemExit 2)"
    using Cons a by (simp add: parseCmdLineArgs_def parse_args_def parser_arguments)
  with assms(1) show ?thesis by simp
qed

lemma bind_endpoint:
  assumes "bindable w (''tcp://*:'' @ port i)"
  shows "\<exists>w'. bind i w = (Inr (i\<lparr>socket := Some (nsocks w)\<rparr>), w')
             \<and> endpoints (socks w' (nsocks w)) = [''tcp://*:'' @ port i]
             \<and> inbox (socks w' (nsocks w)) = incoming w (''tcp://*:'' @ port i)
             \<and> \<not> awaiting_send (socks w' (nsocks w))
             \<and> nsocks w' = Suc (nsocks w) \<and> trace w' = trace w"
  using assms
  by (simp add: bind_def and_then_def context_socket_def socket_bind_def lift_def Let_def)

lemma bind_refused:
  assumes "\<not> bindable w (''tcp://*:'' @ port i)"
  shows "fst (bind i w) = Inl ZMQError"
  using assms
  by (simp add: bind_def and_then_def context_socket_def socket_bind_def lift_def Let_def)

text \<open>
  C8. The parser has one option, written \<open>-p\<close> or \<open>--port\<close>. When the command line is
  accepted and does not give it, the parsed port is the default \<open>5557\<close>, and that is the
  port of the implementation object made from the parsed arguments. \<open>bind\<close>, for an
  implementation with any port, makes a new socket and, when the transport accepts the
  endpoint, binds it to \<open>tcp://*:\<close> followed by the port.
\<close>

theorem default_port_bound:
  assumes "parseCmdLineArgs argv = Inr args"
    and "\<forall>a \<in> set argv. fst a \<notin> {''-p'', ''--port''}"
  shows "map option_strings (arguments parser) = [[''-p'', ''--port'']]
       \<and> args ''port'' = Some ''5557''
       \<and> ServerImpl_init args = Inr \<lparr>port = ''5557'', socket = None\<rparr>
       \<and> (\<forall>p w. bindable w (''tcp://*:'' @ p) \<longrightarrow>
            (\<exists>w'. bind \<lparr>port = p, socket = None\<rparr> w =
                     (Inr \<lparr>port = p, socket = Some (nsocks w)\<rparr>, w')
                 \<and> endpoints (socks w' (nsocks w)) = [''tcp://*:'' @ p]))"
proof -
  have "argv = []"
    using assms by (rule parseCmdLineArgs_not_supplied)
  then have args: "args = [''port'' \<mapsto> ''5557'']"
    using assms(1) parseCmdLineArgs_Nil by simp
  have b: "\<forall>p w. bindable w (''tcp://*:'' @ p) \<longrightarrow>
            (\<exists>w'. bind \<lparr>port = p, socket = None\<rparr> w =
                     (Inr \<lparr>port = p, socket = Some (nsocks w)\<rparr>, w')
                 \<and> endpoints (socks w' (nsocks w)) = [''tcp://*:'' @ p])"
  proof (intro allI impI)
    fix p :: string and w :: world
    assume "bindable w (''tcp://*:'' @ p)"
    then show "\<exists>w'. bind \<lparr>port = p, socket = None\<rparr> w =
                     (Inr \<lparr>port = p, socket = Some (nsocks w)\<rparr>, w')
                 \<and> endpoints (socks w' (nsocks w)) = [''tcp://*:'' @ p]"
      using bind_endpoint [of w "\<lparr>port = p, socket = None\<rparr>"] by auto
  qed
  show ?thesis
    using args b by (simp add: parser_arguments ServerImpl_init_def)
qed

theorem default_port_bound_witness:
  "parseCmdLineArgs [] = Inr [''port'' \<mapsto> ''5557'']
   \<and> [''port'' \<mapsto> ''5557''] ''port'' = Some ''5557''
   \<and> ServerImpl_init [''port'' \<mapsto> ''5557''] = Inr \<lparr>port = ''5557'', socket = None\<rparr>
   \<and> bindable (boot []) (''tcp://*:'' @ ''5557'')
   \<and> (\<exists>w'. bind \<lparr>port = ''5557'', socket = None\<rparr> (boot []) =
               (Inr \<lparr>port = ''5557'', socket = Some 0\<rparr>, w')
          \<and> endpoints (socks w' 0) = [''tcp://*:5557''])"
proof -
  have h: "parseCmdLineArgs [] = Inr [''port'' \<mapsto> ''5557'']"
    "\<forall>a \<in> set ([] :: (string \<times> string) list). fst a \<notin> {''-p'', ''--port''}"
    by (simp_all add: parseCmdLineArgs_Nil)
  have b: "bindable (boot []) (''tcp://*:'' @ ''5557'')" "nsocks (boot []) = 0"
    by (simp_all add: boot_def)
  note t = default_port_bound [OF h]
  from t have "bindable (boot []) (''tcp://*:'' @ ''5557'') \<longrightarrow>
            (\<exists>w'. bind \<lparr>port = ''5557'', socket = None\<rparr> (boot []) =
                     (Inr \<lparr>port = ''5557'', socket = Some (nsocks (boot []))\<rparr>, w')
                 \<and> endpoints (socks w' (nsocks (boot []))) = [''tcp://*:'' @ ''5557''])"
    by blast
  with b have "\<exists>w'. bind \<lparr>port = ''5557'', socket = None\<rparr> (boot []) =
               (Inr \<lparr>port = ''5557'', socket = Some 0\<rparr>, w')
          \<and> endpoints (socks w' 0) = [''tcp://*:5557'']"
    by simp
  then show ?thesis
    using h(1) b(1) t by simp
qed

text \<open>
  The whole program on two requests, on a port given on the command line, and on a port
  that is in use.
\<close>

lemma main_serves:
  "fst (main [] (Suc (Suc 0)) (boot [''GET a'', ''PUT b c''])) = None
   \<and> trace (snd (main [] (Suc (Suc 0)) (boot [''GET a'', ''PUT b c'']))) =
       [Recv 0 ''GET a'', Get server0 ''a'', Send 0 ''a'',
        Recv 0 ''PUT b c'', Put server0 ''b'' ''c'', Send 0 ''ack'']
   \<and> fst (main [] (Suc (Suc (Suc 0))) (boot [''GET a'', ''PUT b c''])) = Some Blocked"
  by (simp add: main_def parseCmdLineArgs_Nil ServerImpl_init_def bind_def context_socket_def
      socket_bind_def boot_def fixture_defs poll_def readable_def
      handle_message_def and_then_def recv_string_def send_string_def lift_def
      index_def the_impl_def get_def put_def emit_def Let_def)

lemma main_port_supplied:
  "parseCmdLineArgs [(''--port'', ''6000'')] = Inr [''port'' \<mapsto> ''6000'']
   \<and> parseCmdLineArgs [(''-p'', ''6000''), (''-p'', ''6001'')] = Inr [''port'' \<mapsto> ''6001'']
   \<and> parseCmdLineArgs [(''--verbose'', ''1'')] = Inl (SystemExit 2)"
  by (simp add: parseCmdLineArgs_def parse_args_def parser_arguments dest_port)

lemma main_port_in_use:
  "fst (main [] n (world0 [])) = Some ZMQError"
  by (simp add: main_def parseCmdLineArgs_Nil ServerImpl_init_def bind_def context_socket_def
      socket_bind_def world0_def and_then_def Let_def)

end
